theory Spec2Isabelle
  imports Main
begin

section \<open>Data model (api/models.py)\<close>

text \<open>
  The store is a record of tables. A table is the list of its rows in insertion order;
  primary keys come from a counter that only grows. Account ids, primary keys and
  timestamps are natural numbers. The clock is an input: each request handler takes the
  instant \<open>now\<close> that \<open>timezone.now()\<close> and the \<open>auto_now\<close> fields read while it runs.

  Only the fields that the chat and like operations read or write are kept.
\<close>

type_synonym user_id = nat
type_synonym timestamp = nat

text \<open>
  The failures a request can end in: HTTP 400, 404 and 403, and two exceptions that no
  view catches (HTTP 500): the \<open>MultipleObjectsReturned\<close> of a \<open>get\<close> that matches
  several rows, and the \<open>FieldError\<close> of a filter whose keyword names no field.
\<close>

datatype error =
  InvalidArgument | NotFound | Forbidden | MultipleObjectsReturned | FieldError

record post =
  post_id :: nat
  post_author :: user_id
  post_updated_at :: timestamp
  likes_count :: int
  post_is_active :: bool

record post_like =
  like_id :: nat
  like_user :: user_id
  like_post :: nat
  like_created_at :: timestamp

record chat =
  chat_id :: nat
  participants :: "user_id set"
  chat_created_at :: timestamp
  chat_updated_at :: timestamp
  chat_is_active :: bool

record message =
  msg_id :: nat
  msg_chat :: nat
  sender :: user_id
  content :: string
  msg_created_at :: timestamp
  is_read :: bool

record db =
  users :: "user_id set"
  posts :: "post list"
  post_likes :: "post_like list"
  chats :: "chat list"
  messages :: "message list"
  next_like_id :: nat
  next_chat_id :: nat
  next_message_id :: nat

section \<open>Query helpers\<close>

text \<open>
  \<open>get_object_or_404(Model, cond)\<close>: the one row that satisfies the condition; no such
  row is HTTP 404; several rows raise \<open>MultipleObjectsReturned\<close>, which nothing catches.
\<close>

definition get_object_or_404 :: "('a \<Rightarrow> bool) \<Rightarrow> 'a list \<Rightarrow> error + 'a" where
  "get_object_or_404 cond rows =
     (case filter cond rows of
        [] \<Rightarrow> Inl NotFound
      | [x] \<Rightarrow> Inr x
      | _ \<Rightarrow> Inl MultipleObjectsReturned)"

text \<open>
  \<open>ORDER BY key DESC LIMIT 1\<close>: what \<open>first()\<close> is on a queryset ordered by \<open>-key\<close> and
  what \<open>last()\<close> is on one ordered by \<open>key\<close>. Among rows with the same greatest key the
  database is free to pick; the model picks the earliest row of the table.
\<close>

fun order_desc_first :: "('a \<Rightarrow> nat) \<Rightarrow> 'a list \<Rightarrow> 'a option" where
  "order_desc_first key [] = None"
| "order_desc_first key (x # xs) =
     (case order_desc_first key xs of
        None \<Rightarrow> Some x
      | Some y \<Rightarrow> if key x < key y then Some y else Some x)"

section \<open>Likes (api/views.py, toggle\_like)\<close>

text \<open>\<open>post.save()\<close> writes the loaded instance back to the row with its primary key.\<close>

definition save_post :: "post \<Rightarrow> post list \<Rightarrow> post list" where
  "save_post p ps = map (\<lambda>q. if post_id q = post_id p then p else q) ps"

text \<open>
  \<open>toggle_like(request, post_id)\<close>. The post must exist and be active.
  \<open>PostLike.objects.get_or_create(user, post)\<close> finds the like of this user on this post
  or inserts one. A like that was already there is deleted and the counter goes down,
  clamped at zero; a like that was just created raises the counter. The response is
  \<open>(liked, likes_count)\<close>.
\<close>

definition toggle_like ::
  "timestamp \<Rightarrow> user_id \<Rightarrow> nat \<Rightarrow> db \<Rightarrow> error + ((bool \<times> int) \<times> db)" where
  "toggle_like now user pid s =
     (case get_object_or_404 (\<lambda>p. post_id p = pid \<and> post_is_active p) (posts s) of
        Inl e \<Rightarrow> Inl e
      | Inr post \<Rightarrow>
          (case filter (\<lambda>l. like_user l = user \<and> like_post l = post_id post) (post_likes s) of
             [] \<Rightarrow>
               let like = \<lparr>like_id = next_like_id s, like_user = user,
                           like_post = post_id post, like_created_at = now\<rparr>;
                   post' = post\<lparr>likes_count := likes_count post + 1, post_updated_at := now\<rparr>
               in Inr ((True, likes_count post'),
                       s\<lparr>post_likes := post_likes s @ [like],
                         next_like_id := Suc (next_like_id s),
                         posts := save_post post' (posts s)\<rparr>)
           | [like] \<Rightarrow>
               let post' = post\<lparr>likes_count := max 0 (likes_count post - 1),
                                post_updated_at := now\<rparr>
               in Inr ((False, likes_count post'),
                       s\<lparr>post_likes := filter (\<lambda>l. like_id l \<noteq> like_id like) (post_likes s),
                         posts := save_post post' (posts s)\<rparr>)
           | _ \<Rightarrow> Inl MultipleObjectsReturned))"

text \<open>
  A sequence of \<open>toggle_like\<close> requests \<open>(now, user, post_id)\<close>, each run on the store the
  previous one left. A request that fails has written nothing.
\<close>

fun toggle_likes :: "(timestamp \<times> user_id \<times> nat) list \<Rightarrow> db \<Rightarrow> db" where
  "toggle_likes [] s = s"
| "toggle_likes ((now, user, pid) # calls) s =
     toggle_likes calls
       (case toggle_like now user pid s of Inl e \<Rightarrow> s | Inr (r, s') \<Rightarrow> s')"

text \<open>The pair that \<open>unique_together = ('user', 'post')\<close> keeps unique.\<close>

definition like_key :: "post_like \<Rightarrow> user_id \<times> nat" where
  "like_key l = (like_user l, like_post l)"

section \<open>Chats (api/views.py, api/serializers.py)\<close>

subsection \<open>Looking a chat up, or creating it\<close>

text \<open>
  \<open>.filter(participants__count=n)\<close> on \<open>Chat.objects\<close>. The keyword is resolved against
  the model when the filter is called: \<open>participants\<close> is the relation to \<open>User\<close>, and
  \<open>count\<close> is neither a field of \<open>User\<close> nor a lookup of a relation, and no
  \<open>annotate\<close> has put a value of that name on the queryset. Building the filter raises
  \<open>FieldError\<close>, whatever rows the queryset holds; the view does not catch it.
\<close>

definition filter_participants_count :: "nat \<Rightarrow> chat list \<Rightarrow> error + chat list" where
  "filter_participants_count n qs = Inl FieldError"

text \<open>
  The lookup of \<open>create_or_get_chat\<close>: three chained filters and \<open>first()\<close>,
  \<^verbatim>\<open>Chat.objects.filter(participants=request.user).filter(participants=other_user)
      .filter(participants__count=2).first()\<close>.
  No filter looks at \<open>is_active\<close>. \<open>Chat\<close> is ordered by \<open>-updated_at\<close>, so \<open>first()\<close>
  would be the most recently updated row of the queryset that the third filter returns.
\<close>

definition existing_chat :: "user_id \<Rightarrow> user_id \<Rightarrow> chat list \<Rightarrow> error + chat option" where
  "existing_chat user other_user cs =
     (case filter_participants_count 2
             (filter (\<lambda>c. other_user \<in> participants c)
                (filter (\<lambda>c. user \<in> participants c) cs)) of
        Inl e \<Rightarrow> Inl e
      | Inr qs \<Rightarrow> Inr (order_desc_first chat_updated_at qs))"

text \<open>
  \<open>create_or_get_chat(request)\<close>, for the authenticated account \<open>user\<close> and the
  \<open>user_id\<close> of the request body (\<open>None\<close> when the key is missing). A missing or falsy
  \<open>user_id\<close> (the number 0) is HTTP 400; an unknown account is HTTP 404. Then comes the
  lookup, and an error it raises ends the request. After it the source returns an
  existing chat as it is (HTTP 200, \<open>False\<close>) and otherwise lets
  \<open>Chat.objects.create()\<close> make an active chat stamped \<open>now\<close>, to which
  \<open>participants.add(request.user, other_user)\<close> gives its participants (HTTP 201,
  \<open>True\<close>). The many-to-many relation holds each account once.
\<close>

definition create_or_get_chat ::
  "timestamp \<Rightarrow> user_id \<Rightarrow> user_id option \<Rightarrow> db \<Rightarrow> error + (bool \<times> chat \<times> db)" where
  "create_or_get_chat now user other_user_id s =
     (case other_user_id of
        None \<Rightarrow> Inl InvalidArgument
      | Some oid \<Rightarrow>
          if oid = 0 then Inl InvalidArgument
          else if oid \<notin> users s then Inl NotFound
          else
            (case existing_chat user oid (chats s) of
               Inl e \<Rightarrow> Inl e
             | Inr (Some c) \<Rightarrow> Inr (False, c, s)
             | Inr None \<Rightarrow>
                 let c = \<lparr>chat_id = next_chat_id s, participants = {user, oid},
                          chat_created_at = now, chat_updated_at = now,
                          chat_is_active = True\<rparr>
                 in Inr (True, c, s\<lparr>chats := chats s @ [c],
                                    next_chat_id := Suc (next_chat_id s)\<rparr>)))"

text \<open>The store a request leaves: the one it returns, or the one it found when it fails.\<close>

definition store_after :: "db \<Rightarrow> error + (bool \<times> chat \<times> db) \<Rightarrow> db" where
  "store_after s r = (case r of Inl e \<Rightarrow> s | Inr (created, c, s') \<Rightarrow> s')"

subsection \<open>Sending a message\<close>

text \<open>
  The body of a POST to \<open>chats/<chat_id>/messages/\<close>. \<open>MessageSerializer\<close> lists
  \<open>id, sender, content, created_at, is_read\<close>; \<open>id\<close> and \<open>created_at\<close> are read-only and
  \<open>sender\<close> is a read-only nested serializer, which leaves \<open>content\<close> and \<open>is_read\<close> as
  the fields a request can set. A field is \<open>None\<close> when the body does not carry it.
\<close>

record message_request =
  req_content :: "string option"
  req_is_read :: "bool option"

record validated_data =
  v_content :: string
  v_is_read :: "bool option"

text \<open>
  What \<open>serializer.is_valid(raise_exception=True)\<close> does for these two fields, from the
  model declarations: \<open>content = models.TextField()\<close> is a required character field that
  may not be blank, whose value is stripped of surrounding whitespace and may not contain
  the null character; \<open>is_read = models.BooleanField(default=False)\<close> is optional.
  A failure is HTTP 400.

  Text is a list of code points below 256: a \<open>char\<close> stands for the code point of its
  number, and code points from 256 on are outside the type. \<open>is_space\<close> holds of the
  code points below 256 that \<open>str.strip()\<close> removes: the ASCII controls 9 to 13 and 28
  to 31, the blank 32, the next-line control 133 (U+0085) and the no-break space 160
  (U+00A0).
\<close>

definition is_space :: "char \<Rightarrow> bool" where
  "is_space c = (of_char c \<in> {9, 10, 11, 12, 13, 28, 29, 30, 31, 32, 133, 160 :: nat})"

definition strip :: "string \<Rightarrow> string" where
  "strip s = rev (dropWhile is_space (rev (dropWhile is_space s)))"

definition is_valid :: "message_request \<Rightarrow> error + validated_data" where
  "is_valid req =
     (case req_content req of
        None \<Rightarrow> Inl InvalidArgument
      | Some c \<Rightarrow>
          if strip c = [] then Inl InvalidArgument
          else if CHR 0x00 \<in> set (strip c) then Inl InvalidArgument
          else Inr \<lparr>v_content = strip c, v_is_read = req_is_read req\<rparr>)"

text \<open>\<open>chat.save()\<close> writes the loaded instance back under its primary key, with
  \<open>updated_at\<close> set to \<open>now\<close> by \<open>auto_now\<close>. The participants live in their own table
  and are not written.\<close>

definition save_chat :: "timestamp \<Rightarrow> chat \<Rightarrow> chat list \<Rightarrow> chat list" where
  "save_chat now inst cs =
     map (\<lambda>c. if chat_id c = chat_id inst
               then c\<lparr>chat_created_at := chat_created_at inst, chat_updated_at := now,
                      chat_is_active := chat_is_active inst\<rparr>
               else c) cs"

text \<open>
  \<open>MessageCreateView.perform_create\<close>: the chat must have the id of the URL, contain the
  sender and be active, or the request ends in HTTP 404.
  \<open>serializer.save(sender=request.user, chat=chat)\<close> inserts the message with the
  validated fields, \<open>created_at\<close> at \<open>now\<close> and \<open>is_read\<close> at its default \<open>False\<close> when
  the request gave none; then \<open>chat.save()\<close> stamps the chat.
\<close>

definition perform_create ::
  "timestamp \<Rightarrow> user_id \<Rightarrow> nat \<Rightarrow> validated_data \<Rightarrow> db \<Rightarrow> error + (message \<times> db)" where
  "perform_create now user cid v s =
     (case get_object_or_404
             (\<lambda>c. chat_id c = cid \<and> user \<in> participants c \<and> chat_is_active c) (chats s) of
        Inl e \<Rightarrow> Inl e
      | Inr c \<Rightarrow>
          let m = \<lparr>msg_id = next_message_id s, msg_chat = chat_id c, sender = user,
                   content = v_content v, msg_created_at = now,
                   is_read = (case v_is_read v of None \<Rightarrow> False | Some b \<Rightarrow> b)\<rparr>
          in Inr (m, s\<lparr>messages := messages s @ [m],
                       next_message_id := Suc (next_message_id s),
                       chats := save_chat now c (chats s)\<rparr>))"

text \<open>\<open>MessageCreateView\<close> is a \<open>CreateAPIView\<close>: its POST validates the body and, when
  it is valid, calls \<open>perform_create\<close>.\<close>

definition message_create :: 
  "timestamp \<Rightarrow> user_id \<Rightarrow> nat \<Rightarrow> message_request \<Rightarrow> db \<Rightarrow> error + (message \<times> db)" where
  "message_create now user cid req s =
     (case is_valid req of
        Inl e \<Rightarrow> Inl e
      | Inr v \<Rightarrow> perform_create now user cid v s)"

subsection \<open>Listing chats and opening one\<close>

text \<open>\<open>get_queryset\<close> of \<open>ChatListView\<close> and of \<open>ChatDetailView\<close>: the active chats the
  requesting account takes part in.\<close>

definition get_queryset :: "user_id \<Rightarrow> db \<Rightarrow> chat list" where
  "get_queryset user s = filter (\<lambda>c. user \<in> participants c \<and> chat_is_active c) (chats s)"

text \<open>The messages of a chat, \<open>obj.messages\<close>.\<close>

definition chat_messages :: "nat \<Rightarrow> message list \<Rightarrow> message list" where
  "chat_messages cid ms = filter (\<lambda>m. msg_chat m = cid) ms"

text \<open>
  \<open>ChatSerializer.get_last_message\<close>: \<open>obj.messages.last()\<close>, with \<open>Message\<close> ordered by
  \<open>created_at\<close>, or \<open>None\<close>.
\<close>

definition get_last_message :: "db \<Rightarrow> chat \<Rightarrow> message option" where
  "get_last_message s obj =
     order_desc_first msg_created_at (chat_messages (chat_id obj) (messages s))"

text \<open>
  \<open>ChatSerializer.get_unread_count\<close>: the unread messages of the chat that the viewer
  did not send; 0 when the serializer has no authenticated request (viewer \<open>None\<close>).
\<close>

definition get_unread_count :: "db \<Rightarrow> user_id option \<Rightarrow> chat \<Rightarrow> nat" where
  "get_unread_count s viewer obj =
     (case viewer of
        None \<Rightarrow> 0
      | Some u \<Rightarrow>
          length (filter (\<lambda>m. sender m \<noteq> u)
                    (filter (\<lambda>m. \<not> is_read m) (chat_messages (chat_id obj) (messages s)))))"

text \<open>The two computed fields of \<open>ChatSerializer\<close> for one chat and one viewer.\<close>

definition summarize :: "db \<Rightarrow> user_id \<Rightarrow> chat \<Rightarrow> message option \<times> nat" where
  "summarize s viewer obj = (get_last_message s obj, get_unread_count s (Some viewer) obj)"

text \<open>\<open>ChatListView\<close>: every chat of the queryset, most recently updated first, each with
  its summary for the requesting account.\<close>

definition chat_list :: "user_id \<Rightarrow> db \<Rightarrow> (chat \<times> message option \<times> nat) list" where
  "chat_list user s =
     map (\<lambda>c. (c, summarize s user c)) (rev (sort_key chat_updated_at (get_queryset user s)))"

text \<open>
  \<open>ChatDetailView.retrieve\<close>: \<open>get_object()\<close> takes the chat with primary key \<open>pk\<close> from
  the queryset (HTTP 404 when it is not there); every unread message of that chat that
  the viewer did not send is marked read; the response is the chat with its messages in
  \<open>created_at\<close> order, read after the update.
\<close>

definition mark_messages_read :: "nat \<Rightarrow> user_id \<Rightarrow> message list \<Rightarrow> message list" where
  "mark_messages_read cid user ms =
     map (\<lambda>m. if msg_chat m = cid \<and> \<not> is_read m \<and> sender m \<noteq> user
               then m\<lparr>is_read := True\<rparr> else m) ms"

definition retrieve :: "user_id \<Rightarrow> nat \<Rightarrow> db \<Rightarrow> error + ((chat \<times> message list) \<times> db)" where
  "retrieve user pk s =
     (case get_object_or_404 (\<lambda>c. chat_id c = pk) (get_queryset user s) of
        Inl e \<Rightarrow> Inl e
      | Inr instance \<Rightarrow>
          let s' = s\<lparr>messages := mark_messages_read (chat_id instance) user (messages s)\<rparr>
          in Inr ((instance,
                   sort_key msg_created_at (chat_messages (chat_id instance) (messages s'))),
                  s'))"

section \<open>Example stores\<close>

text \<open>A post with no counted like and one stored like of account 2.\<close>

definition likes_db :: db where
  "likes_db =
     \<lparr>users = {1, 2},
      posts = [\<lparr>post_id = 1, post_author = 1, post_updated_at = 3, likes_count = 0,
                post_is_active = True\<rparr>],
      post_likes = [\<lparr>like_id = 1, like_user = 2, like_post = 1, like_created_at = 4\<rparr>],
      chats = [], messages = [],
      next_like_id = 2, next_chat_id = 1, next_message_id = 1\<rparr>"

text \<open>Four accounts; an active chat of accounts 1 and 2 with two unread messages, and an
  inactive chat of accounts 2 and 3. Account 4 is in no chat.\<close>

definition chat_db :: db where
  "chat_db =
     \<lparr>users = {1, 2, 3, 4},
      posts = [], post_likes = [],
      chats = [\<lparr>chat_id = 1, participants = {1, 2}, chat_created_at = 1,
                chat_updated_at = 4, chat_is_active = True\<rparr>,
               \<lparr>chat_id = 2, participants = {2, 3}, chat_created_at = 2,
                chat_updated_at = 2, chat_is_active = False\<rparr>],
      messages = [\<lparr>msg_id = 1, msg_chat = 1, sender = 1, content = ''hello'',
                   msg_created_at = 3, is_read = False\<rparr>,
                  \<lparr>msg_id = 2, msg_chat = 1, sender = 2, content = ''yo'',
                   msg_created_at = 4, is_read = False\<rparr>],
      next_like_id = 1, next_chat_id = 3, next_message_id = 3\<rparr>"

section \<open>Likes: the counter and the uniqueness of likes\<close>

lemma get_object_or_404_mem:
  assumes "get_object_or_404 cond rows = Inr x"
  shows "x \<in> set rows \<and> cond x"
proof -
  from assms have "filter cond rows = [x]"
    by (simp add: get_object_or_404_def split: list.splits)
  then have "x \<in> set (filter cond rows)" by simp
  then show ?thesis by simp
qed

lemma toggle_like_cases:
  assumes "toggle_like now user pid s = Inr (r, s')"
  obtains (liked) post where "post \<in> set (posts s)"
      "filter (\<lambda>l. like_user l = user \<and> like_post l = post_id post) (post_likes s) = []"
      "post_likes s' = post_likes s @ [\<lparr>like_id = next_like_id s, like_user = user,
                           like_post = post_id post, like_created_at = now\<rparr>]"
      "posts s' = save_post (post\<lparr>likes_count := likes_count post + 1, post_updated_at := now\<rparr>) (posts s)"
    | (unliked) post lid where "post \<in> set (posts s)"
      "post_likes s' = filter (\<lambda>l. like_id l \<noteq> lid) (post_likes s)"
      "posts s' = save_post (post\<lparr>likes_count := max 0 (likes_count post - 1), post_updated_at := now\<rparr>) (posts s)"
proof -
  from assms obtain post where g: "get_object_or_404 (\<lambda>p. post_id p = pid \<and> post_is_active p) (posts s) = Inr post"
    by (cases "get_object_or_404 (\<lambda>p. post_id p = pid \<and> post_is_active p) (posts s)")
       (simp_all add: toggle_like_def)
  then have mem: "post \<in> set (posts s)" using get_object_or_404_mem by fastforce
  let ?f = "filter (\<lambda>l. like_user l = user \<and> like_post l = post_id post) (post_likes s)"
  show thesis
  proof (cases ?f)
    case Nil
    with assms g have "s' = s\<lparr>post_likes := post_likes s @ [\<lparr>like_id = next_like_id s, like_user = user,
                           like_post = post_id post, like_created_at = now\<rparr>],
                         next_like_id := Suc (next_like_id s),
                         posts := save_post (post\<lparr>likes_count := likes_count post + 1, post_updated_at := now\<rparr>) (posts s)\<rparr>"
      by (simp add: toggle_like_def Let_def)
    with mem Nil show thesis using liked[of post] by simp
  next
    case (Cons like rest)
    with assms g have rest: "rest = []"
      by (cases rest) (simp_all add: toggle_like_def Let_def)
    with Cons assms g have "s' = s\<lparr>post_likes := filter (\<lambda>l. like_id l \<noteq> like_id like) (post_likes s),
                         posts := save_post (post\<lparr>likes_count := max 0 (likes_count post - 1),
                                post_updated_at := now\<rparr>) (posts s)\<rparr>"
      by (simp add: toggle_like_def Let_def)
    with mem show thesis using unliked[of post "like_id like"] by simp
  qed
qed

lemma save_post_nonneg:
  assumes "\<forall>q\<in>set ps. 0 \<le> likes_count q" and "0 \<le> likes_count p"
  shows "\<forall>q\<in>set (save_post p ps). 0 \<le> likes_count q"
  using assms by (auto simp: save_post_def)

lemma toggle_like_counts:
  assumes inv: "\<forall>p\<in>set (posts s). 0 \<le> likes_count p"
    and step: "toggle_like now user pid s = Inr (r, s')"
  shows "\<forall>p\<in>set (posts s'). 0 \<le> likes_count p"
  using step
proof (cases rule: toggle_like_cases)
  case (liked post)
  with inv have "0 \<le> likes_count post" by blast
  then have "0 \<le> likes_count (post\<lparr>likes_count := likes_count post + 1, post_updated_at := now\<rparr>)"
    by simp
  from save_post_nonneg[OF inv this] show ?thesis using liked(4) by simp
next
  case (unliked post lid)
  have "0 \<le> likes_count (post\<lparr>likes_count := max 0 (likes_count post - 1), post_updated_at := now\<rparr>)"
    by simp
  from save_post_nonneg[OF inv this] show ?thesis using unliked(3) by simp
qed

lemma toggle_like_unique:
  assumes inv: "distinct (map like_key (post_likes s))"
    and step: "toggle_like now user pid s = Inr (r, s')"
  shows "distinct (map like_key (post_likes s'))"
  using step
proof (cases rule: toggle_like_cases)
  case (liked post)
  from liked(2) have "(user, post_id post) \<notin> like_key ` set (post_likes s)"
    by (auto simp: filter_empty_conv like_key_def)
  with inv liked(3) show ?thesis by (simp add: like_key_def)
next
  case (unliked post lid)
  with inv show ?thesis by (simp add: distinct_map_filter)
qed

text \<open>
  Claim C10. Whatever sequence of \<open>toggle_like\<close> requests runs on a store whose counters
  are not negative and whose likes are unique per (user, post), no post's \<open>likes_count\<close>
  is negative afterwards, and no (user, post) pair holds two likes. Every prefix of a
  sequence is a sequence, so this holds after each request. Unliking writes
  \<open>max 0 (likes_count - 1)\<close>.
\<close>

theorem toggle_like_invariant:
  assumes "\<forall>p\<in>set (posts s). 0 \<le> likes_count p"
    and "distinct (map like_key (post_likes s))"
  shows "(\<forall>p\<in>set (posts (toggle_likes calls s)). 0 \<le> likes_count p) \<and>
         distinct (map like_key (post_likes (toggle_likes calls s)))"
  using assms
proof (induction calls arbitrary: s)
  case Nil
  then show ?case by simp
next
  case (Cons call calls)
  obtain now user pid where call: "call = (now, user, pid)" by (cases call) auto
  show ?case
  proof (cases "toggle_like now user pid s")
    case (Inl e)
    with Cons call show ?thesis by simp
  next
    case (Inr res)
    obtain r s' where res: "res = (r, s')" by (cases res) auto
    from Inr res Cons.prems have "\<forall>p\<in>set (posts s'). 0 \<le> likes_count p"
      and "distinct (map like_key (post_likes s'))"
      using toggle_like_counts toggle_like_unique by blast+
    then show ?thesis using Cons.IH[of s'] Inr res call by simp
  qed
qed

text \<open>On \<open>likes_db\<close> account 2 unlikes post 1, whose counter is already 0, and likes it
  again: the counter is clamped at 0 and then 1.\<close>

theorem toggle_like_invariant_witness:
  "list_all (\<lambda>p. 0 \<le> likes_count p) (posts likes_db) \<and>
   distinct (map like_key (post_likes likes_db)) \<and>
   list_all (\<lambda>p. 0 \<le> likes_count p) (posts (toggle_likes [(10, 2, 1), (11, 2, 1)] likes_db)) \<and>
   distinct (map like_key (post_likes (toggle_likes [(10, 2, 1), (11, 2, 1)] likes_db))) \<and>
   map likes_count (posts (toggle_likes [(10, 2, 1)] likes_db)) = [0] \<and>
   map likes_count (posts (toggle_likes [(10, 2, 1), (11, 2, 1)] likes_db)) = [1]"
proof -
  have h1: "\<forall>p\<in>set (posts likes_db). 0 \<le> likes_count p"
    by (simp add: likes_db_def)
  have h2: "distinct (map like_key (post_likes likes_db))"
    by (simp add: likes_db_def)
  have e1: "map likes_count (posts (toggle_likes [(10, 2, 1)] likes_db)) = [0]"
    by (simp add: likes_db_def toggle_like_def get_object_or_404_def save_post_def)
  have e2: "map likes_count (posts (toggle_likes [(10, 2, 1), (11, 2, 1)] likes_db)) = [1]"
    by (simp add: likes_db_def toggle_like_def get_object_or_404_def save_post_def)
  note c = toggle_like_invariant[OF h1 h2, of "[(10, 2, 1), (11, 2, 1)]"]
  from c have c1: "list_all (\<lambda>p. 0 \<le> likes_count p)
      (posts (toggle_likes [(10, 2, 1), (11, 2, 1)] likes_db))"
    unfolding list_all_iff by (rule conjunct1)
  from c have c2: "distinct (map like_key
      (post_likes (toggle_likes [(10, 2, 1), (11, 2, 1)] likes_db)))"
    by (rule conjunct2)
  from h1 have h1': "list_all (\<lambda>p. 0 \<le> likes_count p) (posts likes_db)"
    unfolding list_all_iff .
  from h1' h2 c1 c2 e1 e2 show ?thesis by (intro conjI)
qed

section \<open>Chat lookup and creation\<close>

text \<open>Facts about \<open>order_desc_first\<close>, used for the last message of a chat too.\<close>

lemma order_desc_first_None: "order_desc_first key xs = None \<longleftrightarrow> xs = []"
  by (induction xs) (auto split: option.splits)

lemma order_desc_first_mem: "order_desc_first key xs = Some x \<Longrightarrow> x \<in> set xs"
  by (induction xs arbitrary: x) (auto split: option.splits if_splits)

lemma order_desc_first_max:
  "order_desc_first key xs = Some x \<Longrightarrow> y \<in> set xs \<Longrightarrow> key y \<le> key x"
proof (induction xs arbitrary: x)
  case Nil
  then show ?case by simp
next
  case (Cons a xs)
  show ?case
  proof (cases "order_desc_first key xs")
    case None
    then have "xs = []" by (simp add: order_desc_first_None)
    with Cons.prems None show ?thesis by simp
  next
    case (Some z)
    with Cons.prems Cons.IH[OF Some] show ?thesis
      by (auto split: if_splits)
  qed
qed

lemma order_desc_first_snoc:
  "\<forall>x\<in>set xs. key x < key m \<Longrightarrow> order_desc_first key (xs @ [m]) = Some m"
  by (induction xs) auto

lemma create_or_get_chat_lookup_fails:
  assumes "oid \<in> users s" and "oid \<noteq> 0"
  shows "create_or_get_chat now user (Some oid) s = Inl FieldError"
  using assms
  by (simp add: create_or_get_chat_def existing_chat_def filter_participants_count_def)

text \<open>
  Claim C1, where the code departs from it. For every existing account \<open>oid\<close> the
  lookup of \<open>create_or_get_chat\<close> raises \<open>FieldError\<close> at its third filter: no chat is
  searched for, returned or created, for any requesting account and any store.
\<close>

theorem create_or_get_chat_field_error:
  assumes "oid \<in> users s" and "oid \<noteq> 0"
  shows "create_or_get_chat now user (Some oid) s = Inl FieldError \<and>
         store_after s (create_or_get_chat now user (Some oid) s) = s"
  using create_or_get_chat_lookup_fails[OF assms, of now user]
  by (simp add: store_after_def)

theorem create_or_get_chat_field_error_witness:
  "2 \<in> users chat_db \<and> (2::nat) \<noteq> 0 \<and>
   create_or_get_chat 9 1 (Some 2) chat_db = Inl FieldError \<and>
   store_after chat_db (create_or_get_chat 9 1 (Some 2) chat_db) = chat_db"
proof -
  have h: "2 \<in> users chat_db" "(2::nat) \<noteq> 0" by (simp_all add: chat_db_def)
  note t = create_or_get_chat_field_error[OF h, of 9 1]
  from t have c1: "create_or_get_chat 9 1 (Some 2) chat_db = Inl FieldError"
    by (rule conjunct1)
  from t have c2: "store_after chat_db (create_or_get_chat 9 1 (Some 2) chat_db) = chat_db"
    by (rule conjunct2)
  from h c1 c2 show ?thesis by (intro conjI)
qed

text \<open>
  Claim C7, where the code departs from it. Accounts 1 and 2 of \<open>chat_db\<close> exist and
  already share the active chat 1, yet the call fails with \<open>FieldError\<close> in both orders
  of the pair: neither order returns a conversation.
\<close>

theorem create_or_get_chat_both_orders:
  "create_or_get_chat 9 1 (Some 2) chat_db = Inl FieldError \<and>
   create_or_get_chat 9 2 (Some 1) chat_db = Inl FieldError"
  by (simp add: create_or_get_chat_def existing_chat_def filter_participants_count_def
      chat_db_def)

lemma create_or_get_chat_InvalidArgument:
  "create_or_get_chat now user oid s = Inl InvalidArgument \<longleftrightarrow> oid = None \<or> oid = Some 0"
proof (cases oid)
  case None
  then show ?thesis by (simp add: create_or_get_chat_def)
next
  case (Some i)
  then show ?thesis
    by (simp add: create_or_get_chat_def existing_chat_def filter_participants_count_def)
qed

lemma create_or_get_chat_store:
  "store_after s (create_or_get_chat now user oid s) = s"
proof (cases oid)
  case None
  then show ?thesis by (simp add: create_or_get_chat_def store_after_def)
next
  case (Some i)
  then show ?thesis
    by (simp add: create_or_get_chat_def existing_chat_def filter_participants_count_def
        store_after_def)
qed

text \<open>
  Claim C3, as amended. \<open>InvalidArgument\<close> is the answer exactly when the \<open>user_id\<close> of
  the body is missing or 0: no test compares it with the requesting account. So with
  both ids equal to an account \<open>a\<close> (whose id is not 0) the call does not fail with
  \<open>InvalidArgument\<close>; and the store it leaves is the store it found, so no conversation
  is created.
\<close>

theorem create_or_get_chat_self:
  "(create_or_get_chat now user oid s = Inl InvalidArgument \<longleftrightarrow> oid = None \<or> oid = Some 0) \<and>
   (a \<noteq> 0 \<longrightarrow>
      create_or_get_chat now a (Some a) s \<noteq> Inl InvalidArgument \<and>
      store_after s (create_or_get_chat now a (Some a) s) = s)"
proof -
  have p1: "create_or_get_chat now user oid s = Inl InvalidArgument \<longleftrightarrow>
            oid = None \<or> oid = Some 0"
    by (rule create_or_get_chat_InvalidArgument)
  have p2: "a \<noteq> 0 \<longrightarrow>
      create_or_get_chat now a (Some a) s \<noteq> Inl InvalidArgument \<and>
      store_after s (create_or_get_chat now a (Some a) s) = s"
    by (simp add: create_or_get_chat_InvalidArgument create_or_get_chat_store)
  show ?thesis by (rule conjI[OF p1 p2])
qed

theorem create_or_get_chat_self_witness:
  "(4::nat) \<noteq> 0 \<and>
   create_or_get_chat 9 4 (Some 4) chat_db \<noteq> Inl InvalidArgument \<and>
   store_after chat_db (create_or_get_chat 9 4 (Some 4) chat_db) = chat_db \<and>
   create_or_get_chat 9 4 (Some 0) chat_db = Inl InvalidArgument \<and>
   create_or_get_chat 9 4 None chat_db = Inl InvalidArgument"
proof -
  have h: "(4::nat) \<noteq> 0" by simp
  note t = create_or_get_chat_self[of 9 4 "Some 4" chat_db 4]
  from t h have c1: "create_or_get_chat 9 4 (Some 4) chat_db \<noteq> Inl InvalidArgument"
    by blast
  from t h have c2: "store_after chat_db (create_or_get_chat 9 4 (Some 4) chat_db) = chat_db"
    by blast
  from create_or_get_chat_self[of 9 4 "Some 0" chat_db 4]
  have c3: "create_or_get_chat 9 4 (Some 0) chat_db = Inl InvalidArgument" by blast
  from create_or_get_chat_self[of 9 4 None chat_db 4]
  have c4: "create_or_get_chat 9 4 None chat_db = Inl InvalidArgument" by blast
  from h c1 c2 c3 c4 show ?thesis by (intro conjI)
qed

text \<open>
  Claim C3 as stated fails on the kind of the error: account 4 of \<open>chat_db\<close> asks for a
  chat with itself and the request ends in \<open>FieldError\<close>, not in \<open>InvalidArgument\<close>.
\<close>

theorem create_or_get_chat_self_counterexample:
  "create_or_get_chat 9 4 (Some 4) chat_db = Inl FieldError \<and>
   create_or_get_chat 9 4 (Some 4) chat_db \<noteq> Inl InvalidArgument"
  by (simp add: create_or_get_chat_def existing_chat_def filter_participants_count_def
      chat_db_def)

section \<open>Sending a message\<close>

lemma get_object_or_404_empty:
  "filter cond rows = [] \<Longrightarrow> get_object_or_404 cond rows = Inl NotFound"
  by (simp add: get_object_or_404_def)

lemma get_object_or_404_single:
  "filter cond rows = [x] \<Longrightarrow> get_object_or_404 cond rows = Inr x"
  by (simp add: get_object_or_404_def)

lemma get_object_or_404_error:
  "get_object_or_404 cond rows = Inl e \<Longrightarrow> e = NotFound \<or> e = MultipleObjectsReturned"
  by (auto simp: get_object_or_404_def split: list.splits)

lemma is_valid_error: "is_valid req = Inl e \<Longrightarrow> e = InvalidArgument"
  by (auto simp: is_valid_def split: option.splits if_splits)

lemma is_valid_Inr:
  "is_valid req = Inr v \<Longrightarrow>
   \<exists>c. req_content req = Some c \<and> strip c \<noteq> [] \<and> v_content v = strip c \<and>
       v_is_read v = req_is_read req"
  by (auto simp: is_valid_def split: option.splits if_splits)

lemma strip_Nil: "strip [] = []"
  by (simp add: strip_def)

text \<open>The next-line control and the no-break space are trimmed like the blank, and a
  content made of them alone is blank.\<close>

lemma strip_no_break_space: "strip (CHR 0xA0 # ''hi'' @ [CHR 0x85]) = ''hi''"
  by (simp add: strip_def is_space_def)

lemma is_valid_blank:
  "is_valid \<lparr>req_content = Some [CHR 0xA0, CHR '' ''], req_is_read = None\<rparr> = Inl InvalidArgument"
  by (simp add: is_valid_def strip_def is_space_def)

lemma filter_unique_key:
  assumes "distinct (map f xs)" and "x \<in> set xs" and "P x"
    and "\<And>y. y \<in> set xs \<Longrightarrow> P y \<Longrightarrow> f y = f x"
  shows "filter P xs = [x]"
  using assms
proof (induction xs)
  case Nil
  then show ?case by simp
next
  case (Cons a xs)
  show ?case
  proof (cases "a = x")
    case True
    have "filter P xs = []"
    proof (rule ccontr)
      assume "filter P xs \<noteq> []"
      then obtain y where y: "y \<in> set xs" "P y"
        by (auto simp: filter_empty_conv)
      then have "f y = f x" using Cons.prems(4) by simp
      moreover have "f y \<in> f ` set xs" using y(1) by simp
      ultimately show False using True Cons.prems(1) by simp
    qed
    with True Cons.prems(3) show ?thesis by simp
  next
    case False
    with Cons.prems have x: "x \<in> set xs" by simp
    have "\<not> P a"
    proof
      assume "P a"
      then have "f a = f x" using Cons.prems(4) by simp
      moreover have "f x \<in> f ` set xs" using x by simp
      ultimately show False using Cons.prems(1) by simp
    qed
    moreover have "filter P xs = [x]"
    proof (rule Cons.IH)
      show "distinct (map f xs)" using Cons.prems(1) by simp
      show "x \<in> set xs" by (rule x)
      show "P x" by (rule Cons.prems(3))
      fix y assume "y \<in> set xs" "P y"
      then show "f y = f x" by (intro Cons.prems(4)) simp_all
    qed
    ultimately show ?thesis by simp
  qed
qed

lemma perform_create_error:
  assumes "perform_create now user cid v s = Inl e"
  shows "e = NotFound \<or> e = MultipleObjectsReturned"
proof (cases "get_object_or_404
    (\<lambda>c. chat_id c = cid \<and> user \<in> participants c \<and> chat_is_active c) (chats s)")
  case (Inl e')
  with assms have "e' = e" by (simp add: perform_create_def)
  with Inl show ?thesis using get_object_or_404_error by fastforce
next
  case (Inr c)
  with assms show ?thesis by (simp add: perform_create_def Let_def)
qed

lemma message_create_error:
  assumes "message_create now user cid req s = Inl e"
  shows "e = InvalidArgument \<or> e = NotFound \<or> e = MultipleObjectsReturned"
proof (cases "is_valid req")
  case (Inl e')
  with assms show ?thesis using is_valid_error by (fastforce simp: message_create_def)
next
  case (Inr v)
  with assms show ?thesis using perform_create_error by (fastforce simp: message_create_def)
qed

text \<open>
  Claim C2, as amended. Sending never fails with \<open>Forbidden\<close>. When the body is valid
  and no chat with the id of the URL is active and contains the sender (the chat is
  absent, or inactive, or the sender does not take part in it), the request fails with
  \<open>NotFound\<close>: one lookup decides the three cases and does not tell them apart.
\<close>

theorem message_create_not_found:
  "message_create now user cid req s \<noteq> Inl Forbidden \<and>
   ((\<exists>v. is_valid req = Inr v) \<and>
    (\<forall>c\<in>set (chats s). chat_id c = cid \<longrightarrow> user \<notin> participants c \<or> \<not> chat_is_active c)
    \<longrightarrow> message_create now user cid req s = Inl NotFound)"
proof (intro conjI impI)
  show "message_create now user cid req s \<noteq> Inl Forbidden"
    using message_create_error[of now user cid req s Forbidden] by auto
next
  assume h: "(\<exists>v. is_valid req = Inr v) \<and>
    (\<forall>c\<in>set (chats s). chat_id c = cid \<longrightarrow> user \<notin> participants c \<or> \<not> chat_is_active c)"
  then obtain v where v: "is_valid req = Inr v" by blast
  from h have "filter (\<lambda>c. chat_id c = cid \<and> user \<in> participants c \<and> chat_is_active c)
                 (chats s) = []"
    by (auto simp: filter_empty_conv)
  then have "perform_create now user cid v s = Inl NotFound"
    by (simp add: perform_create_def get_object_or_404_empty)
  with v show "message_create now user cid req s = Inl NotFound"
    by (simp add: message_create_def)
qed

theorem message_create_not_found_witness:
  "is_valid \<lparr>req_content = Some ''x'', req_is_read = None\<rparr> =
     Inr \<lparr>v_content = ''x'', v_is_read = None\<rparr> \<and>
   list_all (\<lambda>c. chat_id c = 1 \<longrightarrow> 3 \<notin> participants c \<or> \<not> chat_is_active c) (chats chat_db) \<and>
   message_create 9 3 1 \<lparr>req_content = Some ''x'', req_is_read = None\<rparr> chat_db \<noteq> Inl Forbidden \<and>
   message_create 9 3 1 \<lparr>req_content = Some ''x'', req_is_read = None\<rparr> chat_db = Inl NotFound"
proof -
  let ?req = "\<lparr>req_content = Some ''x'', req_is_read = None\<rparr>"
  have v: "is_valid ?req = Inr \<lparr>v_content = ''x'', v_is_read = None\<rparr>"
    by (simp add: is_valid_def strip_def is_space_def)
  have c: "list_all (\<lambda>c. chat_id c = 1 \<longrightarrow> 3 \<notin> participants c \<or> \<not> chat_is_active c)
             (chats chat_db)"
    by (simp add: chat_db_def)
  note t = message_create_not_found[of 9 3 1 ?req chat_db]
  from t have f: "message_create 9 3 1 ?req chat_db \<noteq> Inl Forbidden"
    by (rule conjunct1)
  from v have "\<exists>v. is_valid ?req = Inr v" by blast
  moreover from c have "\<forall>c\<in>set (chats chat_db).
      chat_id c = 1 \<longrightarrow> 3 \<notin> participants c \<or> \<not> chat_is_active c"
    unfolding list_all_iff .
  ultimately have n: "message_create 9 3 1 ?req chat_db = Inl NotFound"
    using t by blast
  from v c f n show ?thesis by (intro conjI)
qed

text \<open>
  Claim C2 as stated fails: account 3 is not a participant of chat 1 (accounts 1 and 2)
  and its message is refused with \<open>NotFound\<close>, not with \<open>Forbidden\<close>.
\<close>

theorem message_create_forbidden_counterexample:
  "message_create 9 3 1 \<lparr>req_content = Some ''x'', req_is_read = None\<rparr> chat_db = Inl NotFound"
  by (simp add: message_create_def perform_create_def get_object_or_404_def is_valid_def
      strip_def is_space_def chat_db_def)

text \<open>
  Claim C8. A request whose content is empty is refused with \<open>InvalidArgument\<close>,
  whatever the chat and the sender; and when a message is created, the content of the
  request was not empty, nor is the stored content.
\<close>

theorem message_create_empty_content:
  "(req_content req = Some [] \<longrightarrow> message_create now user cid req s = Inl InvalidArgument) \<and>
   (message_create now user cid req s = Inr (m, s') \<longrightarrow>
      (\<exists>c. req_content req = Some c \<and> c \<noteq> [] \<and> content m \<noteq> []))"
proof (intro conjI impI)
  assume "req_content req = Some []"
  then show "message_create now user cid req s = Inl InvalidArgument"
    by (simp add: message_create_def is_valid_def strip_Nil)
next
  assume r: "message_create now user cid req s = Inr (m, s')"
  then obtain v where v: "is_valid req = Inr v"
    and p: "perform_create now user cid v s = Inr (m, s')"
    by (cases "is_valid req") (simp_all add: message_create_def)
  from is_valid_Inr[OF v] obtain c where c: "req_content req = Some c" "strip c \<noteq> []"
    "v_content v = strip c" by blast
  from c(2) have "c \<noteq> []" using strip_Nil by auto
  moreover from p have "content m = v_content v"
    by (cases "get_object_or_404
          (\<lambda>c. chat_id c = cid \<and> user \<in> participants c \<and> chat_is_active c) (chats s)")
       (auto simp: perform_create_def Let_def)
  ultimately show "\<exists>c. req_content req = Some c \<and> c \<noteq> [] \<and> content m \<noteq> []"
    using c by simp
qed

theorem message_create_empty_content_witness:
  "req_content \<lparr>req_content = Some [], req_is_read = None\<rparr> = Some [] \<and>
   message_create 9 1 1 \<lparr>req_content = Some [], req_is_read = None\<rparr> chat_db =
     Inl InvalidArgument \<and>
   message_create 9 1 1 \<lparr>req_content = Some ''hi'', req_is_read = None\<rparr> chat_db =
     Inr (\<lparr>msg_id = 3, msg_chat = 1, sender = 1, content = ''hi'', msg_created_at = 9,
           is_read = False\<rparr>,
          chat_db\<lparr>messages := messages chat_db @
                     [\<lparr>msg_id = 3, msg_chat = 1, sender = 1, content = ''hi'',
                       msg_created_at = 9, is_read = False\<rparr>],
                   next_message_id := 4,
                   chats := save_chat 9 (hd (chats chat_db)) (chats chat_db)\<rparr>) \<and>
   (\<exists>c. req_content \<lparr>req_content = Some ''hi'', req_is_read = None\<rparr> = Some c \<and> c \<noteq> [] \<and>
        content \<lparr>msg_id = 3, msg_chat = 1, sender = 1, content = ''hi'', msg_created_at = 9,
           is_read = False\<rparr> \<noteq> [])"
proof -
  let ?e = "\<lparr>req_content = Some [], req_is_read = None\<rparr>"
  let ?r = "\<lparr>req_content = Some ''hi'', req_is_read = None\<rparr>"
  let ?m = "\<lparr>msg_id = 3, msg_chat = 1, sender = 1, content = ''hi'', msg_created_at = 9,
           is_read = False\<rparr>"
  let ?s = "chat_db\<lparr>messages := messages chat_db @ [?m], next_message_id := 4,
                   chats := save_chat 9 (hd (chats chat_db)) (chats chat_db)\<rparr>"
  have h1: "req_content ?e = Some []" by simp
  have h2: "message_create 9 1 1 ?r chat_db = Inr (?m, ?s)"
    by (simp add: message_create_def perform_create_def get_object_or_404_def is_valid_def
        strip_def is_space_def chat_db_def Let_def)
  from message_create_empty_content[of ?e 9 1 1 chat_db] h1
  have c1: "message_create 9 1 1 ?e chat_db = Inl InvalidArgument" by blast
  from message_create_empty_content[of ?r 9 1 1 chat_db ?m ?s] h2
  have c2: "\<exists>c. req_content ?r = Some c \<and> c \<noteq> [] \<and> content ?m \<noteq> []" by blast
  from h1 c1 h2 c2 show ?thesis by (intro conjI)
qed

lemma distinct_map_same:
  assumes "distinct (map f xs)" and "x \<in> set xs" and "y \<in> set xs" and "f x = f y"
  shows "x = y"
  using assms by (auto simp: distinct_map dest: inj_onD)

lemma save_chat_distinct:
  assumes d: "distinct (map chat_id cs)" and c: "ch \<in> set cs"
  shows "save_chat now ch cs =
         map (\<lambda>x. if chat_id x = chat_id ch then x\<lparr>chat_updated_at := now\<rparr> else x) cs"
  unfolding save_chat_def
proof (rule map_cong[OF refl])
  fix x assume x: "x \<in> set cs"
  show "(if chat_id x = chat_id ch
         then x\<lparr>chat_created_at := chat_created_at ch, chat_updated_at := now,
                chat_is_active := chat_is_active ch\<rparr>
         else x) =
        (if chat_id x = chat_id ch then x\<lparr>chat_updated_at := now\<rparr> else x)"
  proof (cases "chat_id x = chat_id ch")
    case True
    with d x c have "x = ch" by (rule distinct_map_same[where f=chat_id])
    then show ?thesis by simp
  next
    case False
    then show ?thesis by simp
  qed
qed

lemma perform_create_found:
  assumes "get_object_or_404
      (\<lambda>c. chat_id c = cid \<and> user \<in> participants c \<and> chat_is_active c) (chats s) = Inr ch"
  shows "perform_create now user cid v s =
     Inr (\<lparr>msg_id = next_message_id s, msg_chat = chat_id ch, sender = user,
            content = v_content v, msg_created_at = now,
            is_read = (case v_is_read v of None \<Rightarrow> False | Some b \<Rightarrow> b)\<rparr>,
          s\<lparr>messages := messages s @
               [\<lparr>msg_id = next_message_id s, msg_chat = chat_id ch, sender = user,
                 content = v_content v, msg_created_at = now,
                 is_read = (case v_is_read v of None \<Rightarrow> False | Some b \<Rightarrow> b)\<rparr>],
            next_message_id := Suc (next_message_id s),
            chats := save_chat now ch (chats s)\<rparr>)"
  using assms by (simp add: perform_create_def Let_def)

text \<open>
  Claim C6, as amended. When the chat with the id of the URL is active and contains the
  sender, and the content is not blank and holds no null character (primary keys
  being unique), one message is
  appended: it belongs to that chat, has that sender, the content stripped of
  surrounding whitespace, the creation time \<open>now\<close>, and \<open>is_read\<close> as the body gave it,
  \<open>False\<close> when the body gave none. The chat's \<open>updated_at\<close> becomes \<open>now\<close>; the other
  chats, the earlier messages and the other tables are unchanged.
\<close>

theorem message_create_effect:
  assumes d: "distinct (map chat_id (chats s))"
    and ch: "ch \<in> set (chats s)" "chat_id ch = cid" "user \<in> participants ch"
      "chat_is_active ch"
    and c: "req_content req = Some c" "strip c \<noteq> []" "CHR 0x00 \<notin> set (strip c)"
  shows "\<exists>m s'.
     message_create now user cid req s = Inr (m, s') \<and>
     m = \<lparr>msg_id = next_message_id s, msg_chat = cid, sender = user, content = strip c,
          msg_created_at = now,
          is_read = (case req_is_read req of None \<Rightarrow> False | Some b \<Rightarrow> b)\<rparr> \<and>
     messages s' = messages s @ [m] \<and>
     chats s' = map (\<lambda>x. if chat_id x = cid then x\<lparr>chat_updated_at := now\<rparr> else x) (chats s) \<and>
     users s' = users s \<and> posts s' = posts s \<and> post_likes s' = post_likes s"
proof -
  let ?v = "\<lparr>v_content = strip c, v_is_read = req_is_read req\<rparr>"
  from c have v: "is_valid req = Inr ?v" by (simp add: is_valid_def)
  have "filter (\<lambda>x. chat_id x = cid \<and> user \<in> participants x \<and> chat_is_active x) (chats s) = [ch]"
    using d ch(1)
  proof (rule filter_unique_key[where f=chat_id])
    show "chat_id ch = cid \<and> user \<in> participants ch \<and> chat_is_active ch"
      using ch by simp
    fix y assume "y \<in> set (chats s)"
      "chat_id y = cid \<and> user \<in> participants y \<and> chat_is_active y"
    then show "chat_id y = chat_id ch" using ch(2) by simp
  qed
  then have g: "get_object_or_404
      (\<lambda>x. chat_id x = cid \<and> user \<in> participants x \<and> chat_is_active x) (chats s) = Inr ch"
    by (rule get_object_or_404_single)
  have sc: "save_chat now ch (chats s) =
      map (\<lambda>x. if chat_id x = cid then x\<lparr>chat_updated_at := now\<rparr> else x) (chats s)"
    using save_chat_distinct[OF d ch(1), of now] ch(2) by simp
  from v perform_create_found[OF g, of now ?v] sc ch(2) show ?thesis
    by (simp add: message_create_def)
qed

theorem message_create_effect_witness:
  "distinct (map chat_id (chats chat_db)) \<and>
   hd (chats chat_db) \<in> set (chats chat_db) \<and> chat_id (hd (chats chat_db)) = 1 \<and>
   1 \<in> participants (hd (chats chat_db)) \<and> chat_is_active (hd (chats chat_db)) \<and>
   req_content \<lparr>req_content = Some '' hi '', req_is_read = None\<rparr> = Some '' hi '' \<and>
   strip '' hi '' = ''hi'' \<and> CHR 0x00 \<notin> set (strip '' hi '') \<and>
   (\<exists>m s'.
     message_create 9 1 1 \<lparr>req_content = Some '' hi '', req_is_read = None\<rparr> chat_db = Inr (m, s') \<and>
     m = \<lparr>msg_id = 3, msg_chat = 1, sender = 1, content = ''hi'',
          msg_created_at = 9, is_read = False\<rparr> \<and>
     messages s' = messages chat_db @ [m] \<and>
     chats s' = map (\<lambda>x. if chat_id x = 1 then x\<lparr>chat_updated_at := 9\<rparr> else x) (chats chat_db) \<and>
     users s' = users chat_db \<and> posts s' = posts chat_db \<and> post_likes s' = post_likes chat_db)"
proof -
  let ?r = "\<lparr>req_content = Some '' hi '', req_is_read = None\<rparr>"
  have d: "distinct (map chat_id (chats chat_db))" by (simp add: chat_db_def)
  have ch: "hd (chats chat_db) \<in> set (chats chat_db)" "chat_id (hd (chats chat_db)) = 1"
    "1 \<in> participants (hd (chats chat_db))" "chat_is_active (hd (chats chat_db))"
    by (simp_all add: chat_db_def)
  have c1: "req_content ?r = Some '' hi ''" by simp
  have st: "strip '' hi '' = ''hi''" by (simp add: strip_def is_space_def)
  have c2: "strip '' hi '' \<noteq> []" "CHR 0x00 \<notin> set (strip '' hi '')"
    by (simp_all add: st)
  have n: "next_message_id chat_db = 3" by (simp add: chat_db_def)
  from message_create_effect[OF d ch c1 c2, of 9] st n
  have "\<exists>m s'.
     message_create 9 1 1 ?r chat_db = Inr (m, s') \<and>
     m = \<lparr>msg_id = 3, msg_chat = 1, sender = 1, content = ''hi'',
          msg_created_at = 9, is_read = False\<rparr> \<and>
     messages s' = messages chat_db @ [m] \<and>
     chats s' = map (\<lambda>x. if chat_id x = 1 then x\<lparr>chat_updated_at := 9\<rparr> else x) (chats chat_db) \<and>
     users s' = users chat_db \<and> posts s' = posts chat_db \<and> post_likes s' = post_likes chat_db"
    by simp
  with d ch c1 st c2(2) show ?thesis by (intro conjI)
qed

text \<open>
  Claim C6 as stated fails on the content and on the read flag: account 1 sends
  \<open>'' hi''\<close> to chat 1 with \<open>is_read\<close> set in the body; the stored message has the
  content \<open>''hi''\<close>, without the leading blank, and is already read.
\<close>

theorem message_create_effect_counterexample:
  "map_sum id fst
     (message_create 9 1 1 \<lparr>req_content = Some '' hi'', req_is_read = Some True\<rparr> chat_db) =
   Inr \<lparr>msg_id = 3, msg_chat = 1, sender = 1, content = ''hi'', msg_created_at = 9,
        is_read = True\<rparr>"
  by (simp add: message_create_def perform_create_def get_object_or_404_def is_valid_def
      strip_def is_space_def chat_db_def Let_def)

section \<open>Reading chats: the detail view, the summary and the list\<close>

lemma retrieve_Inr:
  assumes "retrieve user pk s = Inr (r, s')"
  obtains inst where
    "get_object_or_404 (\<lambda>c. chat_id c = pk) (get_queryset user s) = Inr inst"
    "inst \<in> set (chats s)" "chat_id inst = pk" "user \<in> participants inst"
    "chat_is_active inst"
    "r = (inst, sort_key msg_created_at
                  (chat_messages pk (mark_messages_read pk user (messages s))))"
    "s' = s\<lparr>messages := mark_messages_read pk user (messages s)\<rparr>"
proof (cases "get_object_or_404 (\<lambda>c. chat_id c = pk) (get_queryset user s)")
  case (Inl e)
  with assms show thesis by (simp add: retrieve_def)
next
  case (Inr inst)
  from get_object_or_404_mem[OF Inr]
  have m: "inst \<in> set (get_queryset user s)" "chat_id inst = pk" by simp_all
  then have q: "inst \<in> set (chats s)" "user \<in> participants inst" "chat_is_active inst"
    by (simp_all add: get_queryset_def)
  from assms Inr m(2)
  have "r = (inst, sort_key msg_created_at
                  (chat_messages pk (mark_messages_read pk user (messages s))))"
    and "s' = s\<lparr>messages := mark_messages_read pk user (messages s)\<rparr>"
    by (auto simp: retrieve_def Let_def)
  with Inr m(2) q that show thesis by blast
qed

lemma mark_messages_read_idem:
  "mark_messages_read cid u (mark_messages_read cid u ms) = mark_messages_read cid u ms"
  by (induction ms) (simp_all add: mark_messages_read_def)

lemma unread_after_mark:
  "chat_id c = cid \<Longrightarrow>
   get_unread_count (s\<lparr>messages := mark_messages_read cid u (messages s)\<rparr>) (Some u) c = 0"
  by (auto simp: get_unread_count_def filter_empty_conv mark_messages_read_def
      chat_messages_def)

lemma mark_messages_read_nth:
  "i < length ms \<Longrightarrow>
   mark_messages_read cid u ms ! i =
     (if msg_chat (ms ! i) = cid \<and> \<not> is_read (ms ! i) \<and> sender (ms ! i) \<noteq> u
      then (ms ! i)\<lparr>is_read := True\<rparr> else ms ! i)"
  by (simp add: mark_messages_read_def)

lemma get_queryset_messages:
  "get_queryset user (s\<lparr>messages := ms\<rparr>) = get_queryset user s"
  by (simp add: get_queryset_def)

text \<open>
  Claim C4. When the detail view succeeds, the messages it changes are exactly the
  unread messages of that chat that the viewer did not send, and each of them only
  becomes read; the chats are untouched. Afterwards the viewer's unread count for the
  chat is 0, and opening the chat again returns the same response and the same store.
\<close>

theorem retrieve_marks_read:
  assumes "retrieve user pk s = Inr (r, s')"
  shows "length (messages s') = length (messages s) \<and>
    (\<forall>i < length (messages s).
       messages s' ! i =
         (if msg_chat (messages s ! i) = pk \<and> \<not> is_read (messages s ! i) \<and>
             sender (messages s ! i) \<noteq> user
          then (messages s ! i)\<lparr>is_read := True\<rparr> else messages s ! i)) \<and>
    chats s' = chats s \<and>
    get_unread_count s' (Some user) (fst r) = 0 \<and>
    retrieve user pk s' = Inr (r, s')"
  using assms
proof (cases rule: retrieve_Inr)
  case (1 inst)
  have l: "length (messages s') = length (messages s)"
    using 1(7) by (simp add: mark_messages_read_def)
  have n: "\<forall>i < length (messages s).
       messages s' ! i =
         (if msg_chat (messages s ! i) = pk \<and> \<not> is_read (messages s ! i) \<and>
             sender (messages s ! i) \<noteq> user
          then (messages s ! i)\<lparr>is_read := True\<rparr> else messages s ! i)"
    using 1(7) by (simp add: mark_messages_read_nth)
  have c: "chats s' = chats s" using 1(7) by simp
  have u: "get_unread_count s' (Some user) (fst r) = 0"
    using 1(3,6,7) by (simp add: unread_after_mark)
  have q: "get_queryset user s' = get_queryset user s"
    using 1(7) by (simp add: get_queryset_messages)
  have "retrieve user pk s' = Inr (r, s')"
    using 1(1,3,6,7) q by (simp add: retrieve_def Let_def mark_messages_read_idem)
  with l n c u show ?thesis by (intro conjI)
qed

theorem retrieve_marks_read_witness:
  "retrieve 2 1 chat_db =
     Inr ((hd (chats chat_db),
           [\<lparr>msg_id = 1, msg_chat = 1, sender = 1, content = ''hello'',
              msg_created_at = 3, is_read = True\<rparr>,
            \<lparr>msg_id = 2, msg_chat = 1, sender = 2, content = ''yo'',
              msg_created_at = 4, is_read = False\<rparr>]),
          chat_db\<lparr>messages :=
            [\<lparr>msg_id = 1, msg_chat = 1, sender = 1, content = ''hello'',
               msg_created_at = 3, is_read = True\<rparr>,
             \<lparr>msg_id = 2, msg_chat = 1, sender = 2, content = ''yo'',
               msg_created_at = 4, is_read = False\<rparr>]\<rparr>) \<and>
   get_unread_count
     (chat_db\<lparr>messages :=
            [\<lparr>msg_id = 1, msg_chat = 1, sender = 1, content = ''hello'',
               msg_created_at = 3, is_read = True\<rparr>,
             \<lparr>msg_id = 2, msg_chat = 1, sender = 2, content = ''yo'',
               msg_created_at = 4, is_read = False\<rparr>]\<rparr>)
     (Some 2) (hd (chats chat_db)) = 0 \<and>
   retrieve 2 1
     (chat_db\<lparr>messages :=
            [\<lparr>msg_id = 1, msg_chat = 1, sender = 1, content = ''hello'',
               msg_created_at = 3, is_read = True\<rparr>,
             \<lparr>msg_id = 2, msg_chat = 1, sender = 2, content = ''yo'',
               msg_created_at = 4, is_read = False\<rparr>]\<rparr>) =
     Inr ((hd (chats chat_db),
           [\<lparr>msg_id = 1, msg_chat = 1, sender = 1, content = ''hello'',
              msg_created_at = 3, is_read = True\<rparr>,
            \<lparr>msg_id = 2, msg_chat = 1, sender = 2, content = ''yo'',
              msg_created_at = 4, is_read = False\<rparr>]),
          chat_db\<lparr>messages :=
            [\<lparr>msg_id = 1, msg_chat = 1, sender = 1, content = ''hello'',
               msg_created_at = 3, is_read = True\<rparr>,
             \<lparr>msg_id = 2, msg_chat = 1, sender = 2, content = ''yo'',
               msg_created_at = 4, is_read = False\<rparr>]\<rparr>)"
proof -
  let ?ms = "[\<lparr>msg_id = 1, msg_chat = 1, sender = 1, content = ''hello'',
               msg_created_at = 3, is_read = True\<rparr>,
             \<lparr>msg_id = 2, msg_chat = 1, sender = 2, content = ''yo'',
               msg_created_at = 4, is_read = False\<rparr>]"
  let ?r = "(hd (chats chat_db), ?ms)"
  let ?s = "chat_db\<lparr>messages := ?ms\<rparr>"
  have h: "retrieve 2 1 chat_db = Inr (?r, ?s)"
    by (simp add: retrieve_def get_queryset_def get_object_or_404_def mark_messages_read_def
        chat_messages_def chat_db_def Let_def)
  note t = retrieve_marks_read[OF h]
  from t have u: "get_unread_count ?s (Some 2) (hd (chats chat_db)) = 0" by simp
  from t have i: "retrieve 2 1 ?s = Inr (?r, ?s)" by blast
  from h u i show ?thesis by (intro conjI)
qed

lemma perform_create_Inr:
  assumes "perform_create now user cid v s = Inr (m, s')"
  obtains ch where
    "get_object_or_404
       (\<lambda>c. chat_id c = cid \<and> user \<in> participants c \<and> chat_is_active c) (chats s) = Inr ch"
    "m = \<lparr>msg_id = next_message_id s, msg_chat = cid, sender = user,
          content = v_content v, msg_created_at = now,
          is_read = (case v_is_read v of None \<Rightarrow> False | Some b \<Rightarrow> b)\<rparr>"
    "messages s' = messages s @ [m]"
proof (cases "get_object_or_404
       (\<lambda>c. chat_id c = cid \<and> user \<in> participants c \<and> chat_is_active c) (chats s)")
  case (Inl e)
  with assms show thesis by (simp add: perform_create_def)
next
  case (Inr ch)
  from get_object_or_404_mem[OF Inr] have c: "chat_id ch = cid" by simp
  from assms perform_create_found[OF Inr, of now v] c
  have "m = \<lparr>msg_id = next_message_id s, msg_chat = cid, sender = user,
          content = v_content v, msg_created_at = now,
          is_read = (case v_is_read v of None \<Rightarrow> False | Some b \<Rightarrow> b)\<rparr>"
    and "messages s' = messages s @ [m]"
    by auto
  with Inr that show thesis by blast
qed

lemma summarize_after_send:
  assumes send: "message_create now a cid \<lparr>req_content = Some ''hi'', req_is_read = None\<rparr> s
                 = Inr (m, s')"
    and c: "chat_id c = cid" and ba: "b \<noteq> a"
    and clock: "\<forall>x\<in>set (messages s). msg_chat x = cid \<longrightarrow> msg_created_at x < now"
  shows "fst (summarize s' b c) = Some m \<and> content m = ''hi'' \<and> 1 \<le> snd (summarize s' b c)"
proof -
  have v: "is_valid \<lparr>req_content = Some ''hi'', req_is_read = None\<rparr> =
           Inr \<lparr>v_content = ''hi'', v_is_read = None\<rparr>"
    by (simp add: is_valid_def strip_def is_space_def)
  with send have "perform_create now a cid \<lparr>v_content = ''hi'', v_is_read = None\<rparr> s
                  = Inr (m, s')"
    by (simp add: message_create_def)
  then have mm: "m = \<lparr>msg_id = next_message_id s, msg_chat = cid, sender = a,
          content = ''hi'', msg_created_at = now, is_read = False\<rparr> \<and>
      messages s' = messages s @ [m]"
    by (rule perform_create_Inr) simp
  then have m: "m = \<lparr>msg_id = next_message_id s, msg_chat = cid, sender = a,
          content = ''hi'', msg_created_at = now, is_read = False\<rparr>"
    and ms: "messages s' = messages s @ [m]"
    by simp_all
  have cm: "chat_messages cid (messages s') = chat_messages cid (messages s) @ [m]"
    using m ms by (simp add: chat_messages_def)
  have "\<forall>x\<in>set (chat_messages cid (messages s)). msg_created_at x < msg_created_at m"
    using clock m by (simp add: chat_messages_def)
  then have "order_desc_first msg_created_at (chat_messages cid (messages s) @ [m]) = Some m"
    by (rule order_desc_first_snoc)
  with cm c have l: "fst (summarize s' b c) = Some m"
    by (simp add: summarize_def get_last_message_def)
  have "m \<in> set (filter (\<lambda>x. sender x \<noteq> b)
          (filter (\<lambda>x. \<not> is_read x) (chat_messages cid (messages s'))))"
    using cm m ba by simp
  then have "filter (\<lambda>x. sender x \<noteq> b)
          (filter (\<lambda>x. \<not> is_read x) (chat_messages cid (messages s'))) \<noteq> []"
    by (metis empty_iff empty_set)
  then have "1 \<le> length (filter (\<lambda>x. sender x \<noteq> b)
          (filter (\<lambda>x. \<not> is_read x) (chat_messages cid (messages s'))))"
    by (simp add: Suc_le_eq)
  with c have u: "1 \<le> snd (summarize s' b c)"
    by (simp add: summarize_def get_unread_count_def)
  from l m u show ?thesis by simp
qed

text \<open>
  Claim C5. The projection is a function of the store that returns no store, so it
  writes nothing. Its first component is \<open>None\<close> exactly when the chat has no message,
  and otherwise a message of the chat whose creation time no other message of the chat
  exceeds; its second component is the number of unread messages of the chat that the
  viewer did not send. After account \<open>a\<close> has sent \<open>''hi''\<close> to the chat at an instant
  later than the chat's stored messages, any other account sees that message as the
  last one, with content \<open>''hi''\<close>, and an unread count of at least 1.
\<close>

theorem summarize_projection:
  "(fst (summarize s viewer c) = None \<longleftrightarrow> chat_messages (chat_id c) (messages s) = []) \<and>
   (\<forall>m. fst (summarize s viewer c) = Some m \<longrightarrow>
      m \<in> set (messages s) \<and> msg_chat m = chat_id c \<and>
      (\<forall>x\<in>set (messages s). msg_chat x = chat_id c \<longrightarrow> msg_created_at x \<le> msg_created_at m)) \<and>
   snd (summarize s viewer c) =
     length (filter (\<lambda>m. msg_chat m = chat_id c \<and> \<not> is_read m \<and> sender m \<noteq> viewer)
               (messages s)) \<and>
   (message_create now a (chat_id c) \<lparr>req_content = Some ''hi'', req_is_read = None\<rparr> s
      = Inr (m', s') \<and> b \<noteq> a \<and>
    (\<forall>x\<in>set (messages s). msg_chat x = chat_id c \<longrightarrow> msg_created_at x < now) \<longrightarrow>
    fst (summarize s' b c) = Some m' \<and> content m' = ''hi'' \<and> 1 \<le> snd (summarize s' b c))"
proof -
  have p1: "(fst (summarize s viewer c) = None) = (chat_messages (chat_id c) (messages s) = [])"
    by (simp add: summarize_def get_last_message_def order_desc_first_None)
  have p2: "\<forall>m. fst (summarize s viewer c) = Some m \<longrightarrow>
      m \<in> set (messages s) \<and> msg_chat m = chat_id c \<and>
      (\<forall>x\<in>set (messages s). msg_chat x = chat_id c \<longrightarrow> msg_created_at x \<le> msg_created_at m)"
  proof (intro allI impI)
    fix m assume a: "fst (summarize s viewer c) = Some m"
    then have o: "order_desc_first msg_created_at (chat_messages (chat_id c) (messages s)) = Some m"
      by (simp add: summarize_def get_last_message_def)
    from order_desc_first_mem[OF o] have i: "m \<in> set (messages s)" "msg_chat m = chat_id c"
      by (simp_all add: chat_messages_def)
    have "\<forall>x\<in>set (messages s). msg_chat x = chat_id c \<longrightarrow> msg_created_at x \<le> msg_created_at m"
    proof (intro ballI impI)
      fix x assume "x \<in> set (messages s)" "msg_chat x = chat_id c"
      then have "x \<in> set (chat_messages (chat_id c) (messages s))"
        by (simp add: chat_messages_def)
      with o show "msg_created_at x \<le> msg_created_at m" by (rule order_desc_first_max)
    qed
    with i show "m \<in> set (messages s) \<and> msg_chat m = chat_id c \<and>
        (\<forall>x\<in>set (messages s). msg_chat x = chat_id c \<longrightarrow> msg_created_at x \<le> msg_created_at m)"
      by simp
  qed
  have p3: "snd (summarize s viewer c) =
     length (filter (\<lambda>m. msg_chat m = chat_id c \<and> \<not> is_read m \<and> sender m \<noteq> viewer)
               (messages s))"
  proof -
    have "filter (\<lambda>m. sender m \<noteq> viewer)
            (filter (\<lambda>m. \<not> is_read m) (filter (\<lambda>m. msg_chat m = chat_id c) (messages s)))
          = filter (\<lambda>m. msg_chat m = chat_id c \<and> \<not> is_read m \<and> sender m \<noteq> viewer)
              (messages s)"
      unfolding filter_filter by (rule filter_cong[OF refl]) blast
    then show ?thesis
      by (simp only: summarize_def get_unread_count_def chat_messages_def snd_conv
          option.case)
  qed
  have p4: "message_create now a (chat_id c) \<lparr>req_content = Some ''hi'', req_is_read = None\<rparr> s
      = Inr (m', s') \<and> b \<noteq> a \<and>
    (\<forall>x\<in>set (messages s). msg_chat x = chat_id c \<longrightarrow> msg_created_at x < now) \<longrightarrow>
    fst (summarize s' b c) = Some m' \<and> content m' = ''hi'' \<and> 1 \<le> snd (summarize s' b c)"
    using summarize_after_send[of now a "chat_id c" s m' s' c b] by blast
  show ?thesis by (rule conjI[OF p1 conjI[OF p2 conjI[OF p3 p4]]])
qed

theorem summarize_projection_witness:
  "message_create 9 1 1 \<lparr>req_content = Some ''hi'', req_is_read = None\<rparr> chat_db =
     Inr (\<lparr>msg_id = 3, msg_chat = 1, sender = 1, content = ''hi'', msg_created_at = 9,
           is_read = False\<rparr>,
          chat_db\<lparr>messages := messages chat_db @
                     [\<lparr>msg_id = 3, msg_chat = 1, sender = 1, content = ''hi'',
                       msg_created_at = 9, is_read = False\<rparr>],
                   next_message_id := 4,
                   chats := save_chat 9 (hd (chats chat_db)) (chats chat_db)\<rparr>) \<and>
   (2::nat) \<noteq> 1 \<and>
   list_all (\<lambda>x. msg_chat x = 1 \<longrightarrow> msg_created_at x < 9) (messages chat_db) \<and>
   fst (summarize
          (chat_db\<lparr>messages := messages chat_db @
                     [\<lparr>msg_id = 3, msg_chat = 1, sender = 1, content = ''hi'',
                       msg_created_at = 9, is_read = False\<rparr>],
                   next_message_id := 4,
                   chats := save_chat 9 (hd (chats chat_db)) (chats chat_db)\<rparr>)
          2 (hd (chats chat_db))) =
     Some \<lparr>msg_id = 3, msg_chat = 1, sender = 1, content = ''hi'', msg_created_at = 9,
           is_read = False\<rparr> \<and>
   1 \<le> snd (summarize
          (chat_db\<lparr>messages := messages chat_db @
                     [\<lparr>msg_id = 3, msg_chat = 1, sender = 1, content = ''hi'',
                       msg_created_at = 9, is_read = False\<rparr>],
                   next_message_id := 4,
                   chats := save_chat 9 (hd (chats chat_db)) (chats chat_db)\<rparr>)
          2 (hd (chats chat_db))) \<and>
   snd (summarize chat_db 2 (hd (chats chat_db))) = 1"
proof -
  let ?r = "\<lparr>req_content = Some ''hi'', req_is_read = None\<rparr>"
  let ?m = "\<lparr>msg_id = 3, msg_chat = 1, sender = 1, content = ''hi'', msg_created_at = 9,
           is_read = False\<rparr>"
  let ?s = "chat_db\<lparr>messages := messages chat_db @ [?m], next_message_id := 4,
                   chats := save_chat 9 (hd (chats chat_db)) (chats chat_db)\<rparr>"
  let ?c = "hd (chats chat_db)"
  have cid: "chat_id ?c = 1" by (simp add: chat_db_def)
  have h1: "message_create 9 1 1 ?r chat_db = Inr (?m, ?s)"
    by (simp add: message_create_def perform_create_def get_object_or_404_def is_valid_def
        strip_def is_space_def chat_db_def Let_def)
  have h2: "(2::nat) \<noteq> 1" by simp
  have h3: "list_all (\<lambda>x. msg_chat x = 1 \<longrightarrow> msg_created_at x < 9) (messages chat_db)"
    by (simp add: chat_db_def)
  then have h3': "\<forall>x\<in>set (messages chat_db). msg_chat x = 1 \<longrightarrow> msg_created_at x < 9"
    unfolding list_all_iff .
  note t = summarize_projection[where s=chat_db and viewer=2 and c="?c" and now=9 and a=1
      and m'="?m" and s'="?s" and b=2, unfolded cid]
  from t h1 h2 h3' have c1: "fst (summarize ?s 2 ?c) = Some ?m" by blast
  from t h1 h2 h3' have c2: "1 \<le> snd (summarize ?s 2 ?c)" by blast
  from t have "snd (summarize chat_db 2 ?c) =
     length (filter (\<lambda>m. msg_chat m = 1 \<and> \<not> is_read m \<and> sender m \<noteq> 2) (messages chat_db))"
    by blast
  then have c3: "snd (summarize chat_db 2 ?c) = 1" by (simp add: chat_db_def)
  from h1 h2 h3 c1 c2 c3 show ?thesis by (intro conjI)
qed

lemma retrieve_not_found:
  assumes "\<forall>c\<in>set (chats s). chat_id c = pk \<longrightarrow> user \<notin> participants c \<or> \<not> chat_is_active c"
  shows "retrieve user pk s = Inl NotFound"
proof -
  from assms have "filter (\<lambda>c. chat_id c = pk) (get_queryset user s) = []"
    by (auto simp: filter_empty_conv get_queryset_def)
  then show ?thesis by (simp add: retrieve_def get_object_or_404_empty)
qed

text \<open>
  Claim C9. Every chat of the list view is a stored chat that is active and contains
  the requesting account. When the detail view succeeds, the chat it returns has the
  requested key, is active and contains the requester, and no message outside that chat
  changes. When no active chat with that key contains the requester, the detail view
  fails with \<open>NotFound\<close>; a failure returns no store, so nothing was written.
\<close>

theorem chat_views_scope:
  "(\<forall>x\<in>set (chat_list user s).
      fst x \<in> set (chats s) \<and> chat_is_active (fst x) \<and> user \<in> participants (fst x)) \<and>
   (retrieve user pk s = Inr ((c, ms), s') \<longrightarrow>
      c \<in> set (chats s) \<and> chat_id c = pk \<and> chat_is_active c \<and> user \<in> participants c \<and>
      chats s' = chats s \<and> length (messages s') = length (messages s) \<and>
      (\<forall>i < length (messages s).
         msg_chat (messages s ! i) \<noteq> pk \<longrightarrow> messages s' ! i = messages s ! i)) \<and>
   ((\<forall>c\<in>set (chats s). chat_id c = pk \<longrightarrow> user \<notin> participants c \<or> \<not> chat_is_active c)
      \<longrightarrow> retrieve user pk s = Inl NotFound)"
proof -
  have p1: "\<forall>x\<in>set (chat_list user s).
      fst x \<in> set (chats s) \<and> chat_is_active (fst x) \<and> user \<in> participants (fst x)"
    by (auto simp: chat_list_def get_queryset_def)
  have p2: "retrieve user pk s = Inr ((c, ms), s') \<longrightarrow>
      c \<in> set (chats s) \<and> chat_id c = pk \<and> chat_is_active c \<and> user \<in> participants c \<and>
      chats s' = chats s \<and> length (messages s') = length (messages s) \<and>
      (\<forall>i < length (messages s).
         msg_chat (messages s ! i) \<noteq> pk \<longrightarrow> messages s' ! i = messages s ! i)"
  proof
    assume "retrieve user pk s = Inr ((c, ms), s')"
    then show "c \<in> set (chats s) \<and> chat_id c = pk \<and> chat_is_active c \<and>
      user \<in> participants c \<and>
      chats s' = chats s \<and> length (messages s') = length (messages s) \<and>
      (\<forall>i < length (messages s).
         msg_chat (messages s ! i) \<noteq> pk \<longrightarrow> messages s' ! i = messages s ! i)"
    proof (cases rule: retrieve_Inr)
      case (1 inst)
      from 1(6) have "c = inst" by simp
      moreover have "length (messages s') = length (messages s)"
        using 1(7) by (simp add: mark_messages_read_def)
      moreover have "\<forall>i < length (messages s).
         msg_chat (messages s ! i) \<noteq> pk \<longrightarrow> messages s' ! i = messages s ! i"
        using 1(7) by (simp add: mark_messages_read_nth)
      moreover have "chats s' = chats s" using 1(7) by simp
      ultimately show ?thesis using 1(2-5) by simp
    qed
  qed
  have p3: "(\<forall>c\<in>set (chats s). chat_id c = pk \<longrightarrow> user \<notin> participants c \<or> \<not> chat_is_active c)
      \<longrightarrow> retrieve user pk s = Inl NotFound"
    using retrieve_not_found by blast
  show ?thesis by (rule conjI[OF p1 conjI[OF p2 p3]])
qed

theorem chat_views_scope_witness:
  "map (chat_id \<circ> fst) (chat_list 1 chat_db) = [1] \<and>
   list_all (\<lambda>x. fst x \<in> set (chats chat_db) \<and> chat_is_active (fst x) \<and>
                 1 \<in> participants (fst x)) (chat_list 1 chat_db) \<and>
   list_all (\<lambda>c. chat_id c = 2 \<longrightarrow> 3 \<notin> participants c \<or> \<not> chat_is_active c) (chats chat_db) \<and>
   retrieve 3 2 chat_db = Inl NotFound \<and>
   list_all (\<lambda>c. chat_id c = 1 \<longrightarrow> 3 \<notin> participants c \<or> \<not> chat_is_active c) (chats chat_db) \<and>
   retrieve 3 1 chat_db = Inl NotFound \<and>
   retrieve 2 1 chat_db =
     Inr ((hd (chats chat_db),
           [\<lparr>msg_id = 1, msg_chat = 1, sender = 1, content = ''hello'',
              msg_created_at = 3, is_read = True\<rparr>,
            \<lparr>msg_id = 2, msg_chat = 1, sender = 2, content = ''yo'',
              msg_created_at = 4, is_read = False\<rparr>]),
          chat_db\<lparr>messages :=
            [\<lparr>msg_id = 1, msg_chat = 1, sender = 1, content = ''hello'',
               msg_created_at = 3, is_read = True\<rparr>,
             \<lparr>msg_id = 2, msg_chat = 1, sender = 2, content = ''yo'',
               msg_created_at = 4, is_read = False\<rparr>]\<rparr>) \<and>
   chat_is_active (hd (chats chat_db)) \<and> 2 \<in> participants (hd (chats chat_db))"
proof -
  let ?ms = "[\<lparr>msg_id = 1, msg_chat = 1, sender = 1, content = ''hello'',
               msg_created_at = 3, is_read = True\<rparr>,
             \<lparr>msg_id = 2, msg_chat = 1, sender = 2, content = ''yo'',
               msg_created_at = 4, is_read = False\<rparr>]"
  have r: "retrieve 2 1 chat_db = Inr ((hd (chats chat_db), ?ms), chat_db\<lparr>messages := ?ms\<rparr>)"
    by (simp add: retrieve_def get_queryset_def get_object_or_404_def mark_messages_read_def
        chat_messages_def chat_db_def Let_def)
  from chat_views_scope[of 2 chat_db 1 "hd (chats chat_db)" ?ms "chat_db\<lparr>messages := ?ms\<rparr>"] r
  have c4: "chat_is_active (hd (chats chat_db))" and c5: "2 \<in> participants (hd (chats chat_db))"
    by blast+
  have e: "map (chat_id \<circ> fst) (chat_list 1 chat_db) = [1]"
    by (simp add: chat_list_def get_queryset_def chat_db_def)
  have h2: "list_all (\<lambda>c. chat_id c = 2 \<longrightarrow> 3 \<notin> participants c \<or> \<not> chat_is_active c)
              (chats chat_db)"
    by (simp add: chat_db_def)
  have h1: "list_all (\<lambda>c. chat_id c = 1 \<longrightarrow> 3 \<notin> participants c \<or> \<not> chat_is_active c)
              (chats chat_db)"
    by (simp add: chat_db_def)
  from chat_views_scope[of 1 chat_db]
  have c1: "list_all (\<lambda>x. fst x \<in> set (chats chat_db) \<and> chat_is_active (fst x) \<and>
                 1 \<in> participants (fst x)) (chat_list 1 chat_db)"
    unfolding list_all_iff by (rule conjunct1)
  from chat_views_scope[of 3 chat_db 2] h2
  have c2: "retrieve 3 2 chat_db = Inl NotFound"
    unfolding list_all_iff by blast
  from chat_views_scope[of 3 chat_db 1] h1
  have c3: "retrieve 3 1 chat_db = Inl NotFound"
    unfolding list_all_iff by blast
  from e c1 h2 c2 h1 c3 r c4 c5 show ?thesis by (intro conjI)
qed

end
